theory Spec2Isabelle
  imports Complex_Main
begin

section \<open>Wildfire exposure of pipeline buffers: the chunked zonal statistics\<close>

text \<open>
  The script \<^verbatim>\<open>wildfire_exposure_v02.py\<close> buffers pipeline segments, aggregates a
  burn raster under every buffer in batches, derives three columns and exports the
  frame. The embedding follows the script top to bottom. Python integers are \<open>int\<close>,
  Python lists are lists, a dictionary is an association list read with \<open>map_of\<close>
  (so that its emptiness, which Python's truth test looks at, can be computed), and
  every exception the script can raise is a value of \<open>error\<close>. The progress messages
  that the script prints, the loading and reprojection of the layers before the
  buffering, and the map drawn after the export are not part of the embedding.
\<close>

datatype error = ValueError | KeyError | TypeError | LibraryError

subsection \<open>Python's \<open>range\<close> and positional slicing\<close>

text \<open>
  \<^verbatim>\<open>range(start, stop, step)\<close> raises \<open>ValueError\<close> for a zero step, counts
  upwards for a positive step and downwards for a negative one.
\<close>

function range_up :: "int \<Rightarrow> int \<Rightarrow> int \<Rightarrow> int list" where
  "range_up start stop step =
     (if 0 < step \<and> start < stop then start # range_up (start + step) stop step else [])"
  by pat_completeness auto
termination
  by (relation "measure (\<lambda>(start, stop, step). nat (stop - start))") auto

function range_down :: "int \<Rightarrow> int \<Rightarrow> int \<Rightarrow> int list" where
  "range_down start stop step =
     (if step < 0 \<and> stop < start then start # range_down (start + step) stop step else [])"
  by pat_completeness auto
termination
  by (relation "measure (\<lambda>(start, stop, step). nat (start - stop))") auto

declare range_up.simps [simp del]
declare range_down.simps [simp del]

definition py_range :: "int \<Rightarrow> int \<Rightarrow> int \<Rightarrow> error + int list" where
  "py_range start stop step =
     (if step = 0 then Inl ValueError
      else if 0 < step then Inr (range_up start stop step)
      else Inr (range_down start stop step))"

text \<open>
  \<^verbatim>\<open>gdf.iloc[start:end]\<close>: a negative bound counts from the end, and both bounds
  are clipped to the length, as for every Python slice.
\<close>

definition slice_bound :: "int \<Rightarrow> int \<Rightarrow> nat" where
  "slice_bound n i = nat (if i < 0 then max 0 (n + i) else min i n)"

definition iloc :: "'a list \<Rightarrow> int \<Rightarrow> int \<Rightarrow> 'a list" where
  "iloc xs start end =
     (let n = int (length xs); a = slice_bound n start; b = slice_bound n end
      in take (b - a) (drop a xs))"

subsection \<open>The aggregator \<open>run_chunked_zonal_stats\<close>\<close>

text \<open>
  \<^verbatim>\<open>zonal_stats\<close> belongs to the library \<^verbatim>\<open>rasterstats\<close>, not to this
  repository: it is a parameter of the model, a function from the arguments of one
  call to either an error or the list of records it returns. The arguments of a call
  are kept in a record, and the model returns, next to the result, the calls made in
  order, so that what is invoked (and whether anything is) can be stated.
\<close>

record ('g, 'r) zonal_call =
  arg_vectors :: "'g list"
  arg_raster :: 'r
  arg_stats :: "string list"
  arg_nodata :: int
  arg_geojson_out :: bool

type_synonym ('g, 'r, 's) zonal_lib = "('g, 'r) zonal_call \<Rightarrow> error + 's list"

text \<open>
  The body of the \<^verbatim>\<open>for\<close> loop, run over the values that \<open>range\<close> produced. The
  state is the accumulator \<open>all_stats\<close> and the calls made so far; an error of the
  library ends the run, as an uncaught exception does.
\<close>

fun chunk_loop ::
  "('g, 'r, 's) zonal_lib \<Rightarrow> 'g list \<Rightarrow> 'r \<Rightarrow> int \<Rightarrow> int \<Rightarrow> int list \<Rightarrow>
   's list \<times> ('g, 'r) zonal_call list \<Rightarrow> (error + 's list) \<times> ('g, 'r) zonal_call list"
where
  "chunk_loop zonal_stats gdf raster_path chunk_size nodata [] (all_stats, calls) =
     (Inr all_stats, calls)"
| "chunk_loop zonal_stats gdf raster_path chunk_size nodata (start # rest) (all_stats, calls) =
     (let total = int (length gdf);
          end = min (start + chunk_size) total;
          chunk = iloc gdf start end;
          call = \<lparr>arg_vectors = chunk, arg_raster = raster_path,
                  arg_stats = [''mean'', ''min'', ''count'', ''nodata''],
                  arg_nodata = nodata, arg_geojson_out = False\<rparr>
      in case zonal_stats call of
           Inl e \<Rightarrow> (Inl e, calls @ [call])
         | Inr stats \<Rightarrow>
             chunk_loop zonal_stats gdf raster_path chunk_size nodata rest
               (all_stats @ stats, calls @ [call]))"

definition run_chunked_zonal_stats ::
  "('g, 'r, 's) zonal_lib \<Rightarrow> 'g list \<Rightarrow> 'r \<Rightarrow> int \<Rightarrow> int \<Rightarrow>
   (error + 's list) \<times> ('g, 'r) zonal_call list"
where
  "run_chunked_zonal_stats zonal_stats gdf raster_path chunk_size nodata =
     (let total = int (length gdf)
      in case py_range 0 total chunk_size of
           Inl e \<Rightarrow> (Inl e, [])
         | Inr starts \<Rightarrow>
             chunk_loop zonal_stats gdf raster_path chunk_size nodata starts ([], []))"

text \<open>The defaults of the signature: \<^verbatim>\<open>chunk_size=10000, nodata=65535\<close>.\<close>

definition default_chunk_size :: int where
  "default_chunk_size = 10000"

definition default_nodata :: int where
  "default_nodata = 65535"

definition run_chunked_zonal_stats_default ::
  "('g, 'r, 's) zonal_lib \<Rightarrow> 'g list \<Rightarrow> 'r \<Rightarrow> (error + 's list) \<times> ('g, 'r) zonal_call list"
where
  "run_chunked_zonal_stats_default zonal_stats gdf raster_path =
     run_chunked_zonal_stats zonal_stats gdf raster_path default_chunk_size default_nodata"

subsection \<open>The batches, as the design describes them\<close>

text \<open>
  The design speaks of consecutive batches \<open>[start, min (start + B) N)\<close> of the index
  range \<open>[0, N)\<close>, of one request per batch and of an accumulator that receives each
  batch's records in order. These definitions say that in its words, over natural
  numbers; the theorems below compare them with the loop above.
\<close>

definition batch_bounds :: "nat \<Rightarrow> nat \<Rightarrow> (nat \<times> nat) list" where
  "batch_bounds N B = map (\<lambda>k. (k * B, min (k * B + B) N)) [0..<(N + B - 1) div B]"

definition batch_of :: "'g list \<Rightarrow> nat \<times> nat \<Rightarrow> 'g list" where
  "batch_of gdf = (\<lambda>(s, e). take (e - s) (drop s gdf))"

definition stats_requested :: "string list" where
  "stats_requested = [''mean'', ''min'', ''count'', ''nodata'']"

definition batch_call :: "'g list \<Rightarrow> 'r \<Rightarrow> int \<Rightarrow> nat \<times> nat \<Rightarrow> ('g, 'r) zonal_call" where
  "batch_call gdf raster_path nodata b =
     \<lparr>arg_vectors = batch_of gdf b, arg_raster = raster_path,
      arg_stats = stats_requested, arg_nodata = nodata, arg_geojson_out = False\<rparr>"

definition chunk_call :: "'g list \<Rightarrow> 'r \<Rightarrow> int \<Rightarrow> int \<Rightarrow> int \<Rightarrow> ('g, 'r) zonal_call" where
  "chunk_call gdf raster_path chunk_size nodata start =
     \<lparr>arg_vectors = iloc gdf start (min (start + chunk_size) (int (length gdf))),
      arg_raster = raster_path, arg_stats = stats_requested,
      arg_nodata = nodata, arg_geojson_out = False\<rparr>"

fun invoke_all ::
  "('g, 'r, 's) zonal_lib \<Rightarrow> ('g, 'r) zonal_call list \<Rightarrow>
   's list \<times> ('g, 'r) zonal_call list \<Rightarrow> (error + 's list) \<times> ('g, 'r) zonal_call list"
where
  "invoke_all zonal_stats [] (acc, calls) = (Inr acc, calls)"
| "invoke_all zonal_stats (c # cs) (acc, calls) =
     (case zonal_stats c of
        Inl e \<Rightarrow> (Inl e, calls @ [c])
      | Inr stats \<Rightarrow> invoke_all zonal_stats cs (acc @ stats, calls @ [c]))"

text \<open>
  What the library promises and the script relies on: asked for these four statistics
  over a list of polygons, it answers with one record per polygon, each computed from
  that polygon alone.
\<close>

definition per_polygon ::
  "('g, 'r, 's) zonal_lib \<Rightarrow> 'r \<Rightarrow> int \<Rightarrow> ('g \<Rightarrow> 's) \<Rightarrow> bool" where
  "per_polygon zonal_stats raster_path nodata feature_stats \<longleftrightarrow>
     (\<forall>vs. zonal_stats \<lparr>arg_vectors = vs, arg_raster = raster_path,
             arg_stats = stats_requested, arg_nodata = nodata, arg_geojson_out = False\<rparr>
           = Inr (map feature_stats vs))"

text \<open>A small library for concrete runs: polygon \<open>0\<close> has no record, polygon \<open>g\<close> has \<open>g * g\<close>.\<close>

definition demo_lib :: "(nat, unit, nat option) zonal_lib" where
  "demo_lib c = Inr (map (\<lambda>g. if g = 0 then None else Some (g * g)) (arg_vectors c))"

subsection \<open>Zonal statistic records and the derived columns\<close>

text \<open>
  A record of \<^verbatim>\<open>zonal_stats\<close> is a dictionary from the names of the statistics to
  numbers or \<^verbatim>\<open>None\<close>; the script also allows for \<^verbatim>\<open>None\<close> in place of a record.
  Numbers are real numbers: the floating-point values of the script without their
  rounding. The script reads a record with \<^verbatim>\<open>s["min"]\<close>, which raises \<open>KeyError\<close>
  on a missing key, and with \<^verbatim>\<open>s.get("nodata", 0)\<close>, which does not; an order
  comparison with \<^verbatim>\<open>None\<close> raises \<open>TypeError\<close>.
\<close>

type_synonym stat_record = "(string \<times> real option) list"

type_synonym zonal_stat = "stat_record option"

definition and_then :: "error + 'a \<Rightarrow> ('a \<Rightarrow> error + 'b) \<Rightarrow> error + 'b" where
  "and_then r f = (case r of Inl e \<Rightarrow> Inl e | Inr v \<Rightarrow> f v)"

text \<open>Python's truth value of \<open>s\<close>: \<^verbatim>\<open>None\<close> and the empty dictionary are false.\<close>

definition truth :: "zonal_stat \<Rightarrow> bool" where
  "truth s = (case s of None \<Rightarrow> False | Some d \<Rightarrow> d \<noteq> [])"

definition getitem :: "stat_record \<Rightarrow> string \<Rightarrow> error + real option" where
  "getitem d k = (case map_of d k of None \<Rightarrow> Inl KeyError | Some v \<Rightarrow> Inr v)"

definition dict_get :: "stat_record \<Rightarrow> string \<Rightarrow> real option \<Rightarrow> real option" where
  "dict_get d k dflt = (case map_of d k of None \<Rightarrow> dflt | Some v \<Rightarrow> v)"

definition py_gt :: "real option \<Rightarrow> real option \<Rightarrow> error + bool" where
  "py_gt a b = (case a of None \<Rightarrow> Inl TypeError
                | Some x \<Rightarrow> (case b of None \<Rightarrow> Inl TypeError | Some y \<Rightarrow> Inr (y < x)))"

text \<open>
  \<^verbatim>\<open>1 if s and s["min"] != 65535 and s["count"] > s.get("nodata", 0) else 0\<close>,
  with the short-circuit evaluation of \<^verbatim>\<open>and\<close> from left to right.
\<close>

definition exposed_flag :: "zonal_stat \<Rightarrow> error + int" where
  "exposed_flag s =
     (case s of
        None \<Rightarrow> Inr 0
      | Some d \<Rightarrow>
          if \<not> truth s then Inr 0
          else and_then (getitem d ''min'') (\<lambda>mn.
                 if \<not> (mn \<noteq> Some 65535) then Inr 0
                 else and_then (getitem d ''count'') (\<lambda>cnt.
                        and_then (py_gt cnt (dict_get d ''nodata'' (Some 0))) (\<lambda>b.
                          Inr (if b then 1 else 0)))))"

text \<open>\<^verbatim>\<open>s["mean"] if s else None\<close>\<close>

definition mean_of :: "zonal_stat \<Rightarrow> error + real option" where
  "mean_of s = (case s of None \<Rightarrow> Inr None
                | Some d \<Rightarrow> if \<not> truth s then Inr None else getitem d ''mean'')"

text \<open>A list comprehension whose element expression may raise.\<close>

fun comprehension :: "('a \<Rightarrow> error + 'b) \<Rightarrow> 'a list \<Rightarrow> error + 'b list" where
  "comprehension f [] = Inr []"
| "comprehension f (x # xs) =
     and_then (f x) (\<lambda>y. and_then (comprehension f xs) (\<lambda>ys. Inr (y # ys)))"

definition burn_mean_column :: "zonal_stat list \<Rightarrow> error + real option list" where
  "burn_mean_column burn_stats = comprehension mean_of burn_stats"

definition burn_exposed_column :: "zonal_stat list \<Rightarrow> error + int list" where
  "burn_exposed_column burn_stats = comprehension exposed_flag burn_stats"

subsection \<open>The normaliser\<close>

text \<open>
  A numeric column of the frame holds 64-bit floating-point values: finite numbers,
  the two infinities and NaN, which is how a column stores \<^verbatim>\<open>None\<close> and what
  the export writes as null. Finite arithmetic is exact here (no rounding, one zero);
  the special values follow IEEE 754, and nothing raises: \<open>0 / 0\<close> is NaN and
  \<open>x / 0\<close> is an infinity for \<open>x \<noteq> 0\<close>.
\<close>

datatype float64 = Fin real | PosInf | NegInf | NaN

definition of_mean :: "real option \<Rightarrow> float64" where
  "of_mean v = (case v of None \<Rightarrow> NaN | Some x \<Rightarrow> Fin x)"

fun float_sub :: "float64 \<Rightarrow> float64 \<Rightarrow> float64" where
  "float_sub NaN _ = NaN"
| "float_sub _ NaN = NaN"
| "float_sub (Fin a) (Fin b) = Fin (a - b)"
| "float_sub (Fin a) PosInf = NegInf"
| "float_sub (Fin a) NegInf = PosInf"
| "float_sub PosInf PosInf = NaN"
| "float_sub PosInf _ = PosInf"
| "float_sub NegInf NegInf = NaN"
| "float_sub NegInf _ = NegInf"

fun float_div :: "float64 \<Rightarrow> float64 \<Rightarrow> float64" where
  "float_div NaN _ = NaN"
| "float_div _ NaN = NaN"
| "float_div (Fin a) (Fin b) =
     (if b \<noteq> 0 then Fin (a / b)
      else if a = 0 then NaN else if 0 < a then PosInf else NegInf)"
| "float_div (Fin a) _ = Fin 0"
| "float_div PosInf (Fin b) = (if 0 \<le> b then PosInf else NegInf)"
| "float_div NegInf (Fin b) = (if 0 \<le> b then NegInf else PosInf)"
| "float_div _ _ = NaN"

fun float_le :: "float64 \<Rightarrow> float64 \<Rightarrow> bool" where
  "float_le NaN _ = False"
| "float_le _ NaN = False"
| "float_le NegInf _ = True"
| "float_le _ PosInf = True"
| "float_le (Fin a) (Fin b) = (a \<le> b)"
| "float_le _ _ = False"

text \<open>
  \<^verbatim>\<open>Series.min()\<close> and \<^verbatim>\<open>Series.max()\<close> skip NaN and answer NaN when nothing
  is left.
\<close>

fun series_min :: "float64 list \<Rightarrow> float64" where
  "series_min [] = NaN"
| "series_min (x # xs) =
     (if x = NaN then series_min xs
      else case series_min xs of NaN \<Rightarrow> x | m \<Rightarrow> if float_le x m then x else m)"

fun series_max :: "float64 list \<Rightarrow> float64" where
  "series_max [] = NaN"
| "series_max (x # xs) =
     (if x = NaN then series_max xs
      else case series_max xs of NaN \<Rightarrow> x | m \<Rightarrow> if float_le m x then x else m)"

text \<open>
  \<^verbatim>\<open>(pipe["burn_mean"] - pipe["burn_mean"].min()) /
  (pipe["burn_mean"].max() - pipe["burn_mean"].min())\<close>: a column minus a number,
  divided by a number, element by element.
\<close>

definition burn_norm :: "float64 list \<Rightarrow> float64 list" where
  "burn_norm burn_mean =
     map (\<lambda>x. float_div (float_sub x (series_min burn_mean))
                 (float_sub (series_max burn_mean) (series_min burn_mean)))
       burn_mean"

text \<open>The non-null means of a list, for stating what minimum and maximum are taken over.\<close>

fun observed :: "real option list \<Rightarrow> real list" where
  "observed [] = []"
| "observed (None # vs) = observed vs"
| "observed (Some x # vs) = x # observed vs"

subsection \<open>The frame and the export\<close>

text \<open>
  A data frame is the list of its columns in order, each a name and its cells; a cell
  is a value of the input file (an attribute or a geometry), a floating-point number
  or an integer. Assigning to a column replaces the column of that name where it is and
  appends a new one at the end otherwise; assigning a list of the wrong length raises
  \<open>ValueError\<close>; reading or dropping a missing column raises \<open>KeyError\<close>; arithmetic on
  a cell that is not a number raises \<open>TypeError\<close>.
\<close>

datatype 'a cell = Attr 'a | Num float64 | IntCell int

type_synonym 'a frame = "(string \<times> 'a cell list) list"

definition getcol :: "'a frame \<Rightarrow> string \<Rightarrow> error + 'a cell list" where
  "getcol df name = (case map_of df name of None \<Rightarrow> Inl KeyError | Some col \<Rightarrow> Inr col)"

fun setcol :: "'a frame \<Rightarrow> string \<Rightarrow> 'a cell list \<Rightarrow> 'a frame" where
  "setcol [] name col = [(name, col)]"
| "setcol ((n, c) # df) name col =
     (if n = name then (n, col) # df else (n, c) # setcol df name col)"

definition nrows :: "'a frame \<Rightarrow> nat" where
  "nrows df = (case df of [] \<Rightarrow> 0 | (n, c) # _ \<Rightarrow> length c)"

definition setcol_list :: "'a frame \<Rightarrow> string \<Rightarrow> 'a cell list \<Rightarrow> error + 'a frame" where
  "setcol_list df name col =
     (if length col \<noteq> nrows df then Inl ValueError else Inr (setcol df name col))"

definition dropcol :: "'a frame \<Rightarrow> string \<Rightarrow> error + 'a frame" where
  "dropcol df name =
     (if name \<in> set (map fst df) then Inr (filter (\<lambda>p. fst p \<noteq> name) df) else Inl KeyError)"

definition as_float :: "'a cell \<Rightarrow> error + float64" where
  "as_float c = (case c of Num x \<Rightarrow> Inr x | IntCell i \<Rightarrow> Inr (Fin (of_int i)) | Attr _ \<Rightarrow> Inl TypeError)"

text \<open>
  Sections 1 (its last lines) and 2 of the script: the buffer column is added to
  \<open>pipe\<close> and copied into the frame \<open>buffered\<close>, the aggregator runs over the buffers
  with its default chunk size, and \<open>buffered\<close> receives the columns \<open>burn_mean\<close> and
  \<open>burn_exposed\<close>. Buffering a geometry is the geometry library's work: \<open>buffer_500\<close>
  is a parameter.
\<close>

definition buffer_and_aggregate ::
  "('a cell \<Rightarrow> 'a cell) \<Rightarrow> ('a cell, 'r, zonal_stat) zonal_lib \<Rightarrow> 'r \<Rightarrow> 'a frame \<Rightarrow>
   error + ('a frame \<times> 'a frame)"
where
  "buffer_and_aggregate buffer_500 zonal_stats fire_file pipe =
     and_then (getcol pipe ''geometry'') (\<lambda>geometry.
       let bufs = map buffer_500 geometry;
           pipe = setcol pipe ''buffer_500m'' bufs;
           buffered = [(''buffer_500m'', bufs)]
       in and_then (fst (run_chunked_zonal_stats_default zonal_stats bufs fire_file)) (\<lambda>burn_stats.
          and_then (burn_mean_column burn_stats) (\<lambda>means.
          and_then (setcol_list buffered ''burn_mean'' (map (\<lambda>v. Num (of_mean v)) means)) (\<lambda>buffered.
          and_then (burn_exposed_column burn_stats) (\<lambda>flags.
          and_then (setcol_list buffered ''burn_exposed'' (map IntCell flags)) (\<lambda>buffered.
            Inr (pipe, buffered)))))))"

text \<open>
  Sections 3 and 4: the two columns are copied from \<open>buffered\<close> into \<open>pipe\<close> (the frames
  have the same rows), \<open>burn_norm\<close> is computed from the column \<open>burn_mean\<close> of \<open>pipe\<close>,
  the buffer column is dropped, and the result is the frame handed to \<^verbatim>\<open>to_file\<close>.
\<close>

definition export_frame :: "'a frame \<Rightarrow> 'a frame \<Rightarrow> error + 'a frame" where
  "export_frame pipe buffered =
     and_then (getcol buffered ''burn_mean'') (\<lambda>bm.
       let pipe = setcol pipe ''burn_mean'' bm
       in and_then (getcol buffered ''burn_exposed'') (\<lambda>be.
            let pipe = setcol pipe ''burn_exposed'' be
            in and_then (getcol pipe ''burn_mean'') (\<lambda>col.
               and_then (comprehension as_float col) (\<lambda>burn_mean.
                 let pipe = setcol pipe ''burn_norm'' (map Num (burn_norm burn_mean))
                 in dropcol pipe ''buffer_500m''))))"

definition script ::
  "('a cell \<Rightarrow> 'a cell) \<Rightarrow> ('a cell, 'r, zonal_stat) zonal_lib \<Rightarrow> 'r \<Rightarrow> 'a frame \<Rightarrow> error + 'a frame"
where
  "script buffer_500 zonal_stats fire_file pipe =
     and_then (buffer_and_aggregate buffer_500 zonal_stats fire_file pipe)
       (\<lambda>(pipe, buffered). export_frame pipe buffered)"

text \<open>
  The scenario of the design: buffer A over valid burn cells only, buffer B over nodata
  cells only, buffer C without a record; and a library that gives every polygon the
  record of A.
\<close>

definition record_A :: stat_record where
  "record_A = [(''mean'', Some (3/2)), (''min'', Some 1), (''count'', Some 100), (''nodata'', Some 0)]"

definition record_B :: stat_record where
  "record_B = [(''mean'', None), (''min'', Some 65535), (''count'', Some 0), (''nodata'', Some 100)]"

definition scenario :: "zonal_stat list" where
  "scenario = [Some record_A, Some record_B, None]"

definition burnt_lib :: "(nat cell, unit, zonal_stat) zonal_lib" where
  "burnt_lib c = Inr (map (\<lambda>g. Some record_A) (arg_vectors c))"

section \<open>Properties of the aggregator\<close>

lemma range_up_empty: "stop \<le> start \<Longrightarrow> range_up start stop step = []"
  by (simp add: range_up.simps)

lemma range_down_nonneg: "start \<le> stop \<Longrightarrow> range_down start stop step = []"
  by (simp add: range_down.simps)

lemma chunk_loop_invoke_all:
  "chunk_loop zs gdf rp cs nd starts st =
   invoke_all zs (map (chunk_call gdf rp cs nd) starts) st"
proof (induction starts arbitrary: st)
  case Nil
  show ?case by (cases st) simp
next
  case (Cons s starts)
  show ?case
    by (cases st) (simp add: Let_def chunk_call_def stats_requested_def Cons.IH split: sum.splits)
qed

lemma range_up_indices:
  "0 < step \<Longrightarrow>
   range_up start stop step =
   map (\<lambda>k. start + int k * step) [0..<nat ((stop - start + step - 1) div step)]"
proof (induction start stop step rule: range_up.induct)
  case (1 start stop step)
  let ?m = "\<lambda>a. nat ((stop - a + step - 1) div step)"
  show ?case
  proof (cases "start < stop")
    case True
    have "stop - start + step - 1 = (stop - start - 1) + step" by simp
    then have d: "(stop - start + step - 1) div step = (stop - start - 1) div step + 1"
      using 1(2) by (metis div_add_self2 less_irrefl)
    have nn: "0 \<le> (stop - start - 1) div step"
      using 1(2) True by (simp add: pos_imp_zdiv_nonneg_iff)
    have "stop - (start + step) + step - 1 = stop - start - 1" by simp
    then have m: "?m start = Suc (?m (start + step))"
      using d nn by (simp add: nat_add_distrib)
    have ih: "range_up (start + step) stop step =
        map (\<lambda>k. start + step + int k * step) [0..<?m (start + step)]"
      using 1 True by simp
    have "range_up start stop step = start # range_up (start + step) stop step"
      using True 1(2) by (simp add: range_up.simps)
    also have "\<dots> = start # map (\<lambda>k. start + step + int k * step) [0..<?m (start + step)]"
      by (simp only: ih)
    also have "\<dots> = map (\<lambda>k. start + int k * step) [0..<Suc (?m (start + step))]"
      by (simp add: upt_conv_Cons map_Suc_upt [symmetric] algebra_simps del: upt_Suc)
    finally show ?thesis by (simp only: m)
  next
    case False
    have "(stop - start + step - 1) div step \<le> 0"
    proof -
      have "(stop - start + step - 1) div step \<le> (step - 1) div step"
        using 1(2) False by (intro zdiv_mono1) simp_all
      also have "\<dots> = 0" using 1(2) by simp
      finally show ?thesis .
    qed
    then show ?thesis using False by (simp add: range_up.simps)
  qed
qed

lemma range_up_nat:
  assumes "0 < B"
  shows "range_up 0 (int N) (int B) = map (\<lambda>k. int (k * B)) [0..<(N + B - 1) div B]"
proof -
  have "int N - 0 + int B - 1 = int (N + B - 1)" using assms by (simp add: of_nat_diff)
  then have "(int N - 0 + int B - 1) div int B = int ((N + B - 1) div B)"
    by (simp only: zdiv_int)
  then have "nat ((int N - 0 + int B - 1) div int B) = (N + B - 1) div B"
    by (simp only: nat_int)
  then show ?thesis using assms by (simp add: range_up_indices)
qed

lemma batch_index_inside:
  assumes "0 < (B::nat)" "k < (N + B - 1) div B"
  shows "k * B < N"
proof -
  have "Suc k \<le> (N + B - 1) div B" using assms(2) by simp
  then have "Suc k * B \<le> N + B - 1"
    using assms(1) by (simp only: less_eq_div_iff_mult_less_eq)
  then show ?thesis using assms(1) by simp
qed

lemma batch_bounds_inside:
  assumes "0 < B" "(s, e) \<in> set (batch_bounds N B)"
  shows "s < e \<and> e - s \<le> B \<and> e \<le> N"
proof -
  from assms obtain k where k: "k < (N + B - 1) div B" "s = k * B" "e = min (k * B + B) N"
    by (auto simp: batch_bounds_def)
  have "k * B < N" using assms(1) k(1) by (rule batch_index_inside)
  then show ?thesis using k assms(1) by auto
qed

lemma slice_bound_nat: "slice_bound (int n) (int i) = min i n"
  by (simp add: slice_bound_def)

lemma iloc_nat:
  "iloc xs (int a) (int b) = take (min b (length xs) - min a (length xs)) (drop (min a (length xs)) xs)"
  by (simp only: iloc_def Let_def slice_bound_nat)

lemma batch_of_take: "batch_of xs (s, min (B + s) (length xs)) = take B (drop s xs)"
  by (cases "s + B \<le> length xs") (simp_all add: batch_of_def)

lemma chunk_call_batch:
  assumes "k * B < length gdf"
  shows "chunk_call gdf rp (int B) nd (int k * int B) =
         batch_call gdf rp nd (k * B, min (k * B + B) (length gdf))"
proof -
  have e1: "int k * int B = int (k * B)" by simp
  have e2: "min (int (k * B) + int B) (int (length gdf)) = int (min (k * B + B) (length gdf))"
    by (simp add: of_nat_min)
  have "iloc gdf (int (k * B)) (int (min (k * B + B) (length gdf))) =
        batch_of gdf (k * B, min (k * B + B) (length gdf))"
    using assms by (subst iloc_nat) (simp add: batch_of_def min_def)
  then show ?thesis
    unfolding chunk_call_def batch_call_def e1 e2 by simp
qed

lemma chunk_calls_batches:
  assumes "0 < B"
  shows "map (chunk_call gdf rp (int B) nd) (range_up 0 (int (length gdf)) (int B)) =
         map (batch_call gdf rp nd) (batch_bounds (length gdf) B)"
  using assms
  by (simp add: range_up_nat batch_bounds_def chunk_call_batch batch_index_inside)

lemma run_as_batches:
  assumes "0 < B"
  shows "run_chunked_zonal_stats zs gdf rp (int B) nd =
         invoke_all zs (map (batch_call gdf rp nd) (batch_bounds (length gdf) B)) ([], [])"
  using assms
  by (simp add: run_chunked_zonal_stats_def py_range_def chunk_loop_invoke_all chunk_calls_batches)

lemma batches_prefix:
  "concat (map (\<lambda>k. batch_of xs (k * B, min (k * B + B) (length xs))) [0..<m]) =
   take (m * B) xs"
proof (induction m)
  case 0
  show ?case by simp
next
  case (Suc m)
  have "take (m * B) xs @ take B (drop (m * B) xs) = take (m * B + B) xs"
    by (simp only: take_add)
  then show ?case using Suc by (simp add: batch_of_take add.commute)
qed

lemma batches_reach_end:
  assumes "0 < (B::nat)"
  shows "N \<le> (N + B - 1) div B * B"
proof -
  have "(N + B - 1) mod B < B" using assms by simp
  moreover have "(N + B - 1) div B * B + (N + B - 1) mod B = N + B - 1" by simp
  ultimately show ?thesis by linarith
qed

lemma batches_cover:
  assumes "0 < B"
  shows "concat (map (batch_of xs) (batch_bounds (length xs) B)) = xs"
  using batches_reach_end [OF assms, of "length xs"]
  by (simp add: batch_bounds_def comp_def batches_prefix)

lemma invoke_all_pointwise:
  assumes "\<And>c. c \<in> set cs \<Longrightarrow> zs c = Inr (map f (arg_vectors c))"
  shows "invoke_all zs cs (acc, calls) =
         (Inr (acc @ map f (concat (map arg_vectors cs))), calls @ cs)"
  using assms by (induction cs arbitrary: acc calls) simp_all


lemma invoke_all_success:
  assumes "\<And>c. c \<in> set cs \<Longrightarrow> \<exists>r. zs c = Inr r"
  shows "invoke_all zs cs (acc, calls) =
         (Inr (acc @ concat (map (\<lambda>c. projr (zs c)) cs)), calls @ cs)"
  using assms
proof (induction cs arbitrary: acc calls)
  case Nil
  show ?case by simp
next
  case (Cons c cs)
  from Cons.prems [of c] obtain r where r: "zs c = Inr r" by auto
  have "invoke_all zs cs (acc @ r, calls @ [c]) =
        (Inr ((acc @ r) @ concat (map (\<lambda>c. projr (zs c)) cs)), (calls @ [c]) @ cs)"
    by (rule Cons.IH) (simp add: Cons.prems)
  then show ?case using r by simp
qed

lemma run_per_polygon:
  assumes lib: "per_polygon zs rp nd f" and pos: "0 < B"
  shows "run_chunked_zonal_stats zs gdf rp (int B) nd =
         (Inr (map f gdf), map (batch_call gdf rp nd) (batch_bounds (length gdf) B))"
proof -
  let ?cs = "map (batch_call gdf rp nd) (batch_bounds (length gdf) B)"
  have "\<And>c. c \<in> set ?cs \<Longrightarrow> zs c = Inr (map f (arg_vectors c))"
    using lib by (auto simp: per_polygon_def batch_call_def stats_requested_def)
  then have "invoke_all zs ?cs ([], []) =
             (Inr ([] @ map f (concat (map arg_vectors ?cs))), [] @ ?cs)"
    by (rule invoke_all_pointwise)
  moreover have "concat (map arg_vectors ?cs) = gdf"
    using batches_cover [OF pos, of gdf] by (simp add: comp_def batch_call_def)
  ultimately show ?thesis using pos by (simp add: run_as_batches)
qed

lemma run_per_polygon_int:
  assumes lib: "per_polygon zs rp nd f" and pos: "0 < chunk_size"
  shows "fst (run_chunked_zonal_stats zs gdf rp chunk_size nd) = Inr (map f gdf)"
  using run_per_polygon [OF lib, of "nat chunk_size" gdf] pos by simp

text \<open>
  Claim C1. When the library answers per polygon, the aggregator returns, for every
  sequence of buffers and every positive chunk size, the list of the polygons' records
  in the order of the input: as many records as buffers, the \<open>i\<close>-th being the record
  (a null one included) of the \<open>i\<close>-th buffer, whatever the batch boundaries.
\<close>

theorem chunked_records_aligned:
  assumes "per_polygon zonal_stats raster_path nodata feature_stats"
    and "0 < chunk_size"
  shows "\<exists>all_stats.
           fst (run_chunked_zonal_stats zonal_stats gdf raster_path chunk_size nodata) = Inr all_stats \<and>
           all_stats = map feature_stats gdf \<and>
           length all_stats = length gdf \<and>
           (\<forall>i < length gdf. all_stats ! i = feature_stats (gdf ! i))"
  using run_per_polygon_int [OF assms] by simp

lemma demo_lib_per_polygon:
  "per_polygon demo_lib () nd (\<lambda>g. if g = 0 then None else Some (g * g))"
  by (simp add: per_polygon_def demo_lib_def)

theorem chunked_records_aligned_witness:
  "fst (run_chunked_zonal_stats demo_lib [3, 0, 5, 2, 7] () 2 65535) =
     Inr [Some 9, None, Some 25, Some 4, Some 49]"
  using chunked_records_aligned [OF demo_lib_per_polygon, where chunk_size = 2 and gdf = "[3, 0, 5, 2, 7]"]
  by simp

text \<open>
  Claim C3, as stated, at the empty sequence: the chunk size \<open>N\<close> is then \<open>0\<close> and
  \<open>range\<close> raises \<open>ValueError\<close>, whereas chunk size \<open>1\<close> returns the empty list.
\<close>

theorem chunk_size_zero_counterexample:
  "fst (run_chunked_zonal_stats demo_lib [] () (int (length ([] :: nat list))) 65535) = Inl ValueError \<and>
   fst (run_chunked_zonal_stats demo_lib [] () 1 65535) = Inr []"
  by (simp add: run_chunked_zonal_stats_def py_range_def range_up_empty)

text \<open>
  Claim C3, amended. When the library answers per polygon, a non-empty sequence of
  \<open>N\<close> buffers gives the same records with chunk size \<open>N\<close> (one batch) as with chunk
  size \<open>1\<close> (\<open>N\<close> batches), and every positive chunk size gives the records of chunk
  size \<open>1\<close>.
\<close>

theorem chunk_size_invariance:
  assumes "per_polygon zonal_stats raster_path nodata feature_stats"
  shows "(gdf \<noteq> [] \<longrightarrow>
            fst (run_chunked_zonal_stats zonal_stats gdf raster_path (int (length gdf)) nodata) =
            fst (run_chunked_zonal_stats zonal_stats gdf raster_path 1 nodata)) \<and>
         (0 < chunk_size \<longrightarrow>
            fst (run_chunked_zonal_stats zonal_stats gdf raster_path chunk_size nodata) =
            fst (run_chunked_zonal_stats zonal_stats gdf raster_path 1 nodata))"
  using assms by (simp add: run_per_polygon_int)

theorem chunk_size_invariance_witness:
  "fst (run_chunked_zonal_stats demo_lib [3, 0, 5] () (int (length [3, 0, 5 :: nat])) 65535) =
   fst (run_chunked_zonal_stats demo_lib [3, 0, 5] () 1 65535) \<and>
   fst (run_chunked_zonal_stats demo_lib [3, 0, 5] () 2 65535) =
   fst (run_chunked_zonal_stats demo_lib [3, 0, 5] () 1 65535)"
  using chunk_size_invariance [OF demo_lib_per_polygon, where chunk_size = 2 and gdf = "[3, 0, 5]"]
  by simp

text \<open>
  Claim C6. For a batch size \<open>B > 0\<close> the aggregator makes the requests of the
  consecutive batches \<open>[k * B, min (k * B + B) N)\<close> in order, each for the statistics
  mean, min, count and nodata, and stops at the first error; when every request
  succeeds it returns the batches' records concatenated in order. The batches are not
  empty, hold at most \<open>B\<close> polygons and together are the input; called without a chunk
  size the aggregator uses 10000 (and the sentinel 65535).
\<close>

theorem batches_in_order:
  assumes "0 < B"
  shows "run_chunked_zonal_stats zonal_stats gdf raster_path (int B) nodata =
           invoke_all zonal_stats
             (map (batch_call gdf raster_path nodata) (batch_bounds (length gdf) B)) ([], [])
       \<and> ((\<forall>c \<in> set (map (batch_call gdf raster_path nodata) (batch_bounds (length gdf) B)).
              \<exists>r. zonal_stats c = Inr r) \<longrightarrow>
           run_chunked_zonal_stats zonal_stats gdf raster_path (int B) nodata =
             (Inr (concat (map (\<lambda>c. projr (zonal_stats c))
                     (map (batch_call gdf raster_path nodata) (batch_bounds (length gdf) B)))),
              map (batch_call gdf raster_path nodata) (batch_bounds (length gdf) B)))
       \<and> concat (map (batch_of gdf) (batch_bounds (length gdf) B)) = gdf
       \<and> (\<forall>(s, e) \<in> set (batch_bounds (length gdf) B). s < e \<and> e - s \<le> B \<and> e \<le> length gdf)
       \<and> run_chunked_zonal_stats_default zonal_stats gdf raster_path =
           run_chunked_zonal_stats zonal_stats gdf raster_path 10000 65535"
proof (intro conjI impI)
  let ?cs = "map (batch_call gdf raster_path nodata) (batch_bounds (length gdf) B)"
  show run: "run_chunked_zonal_stats zonal_stats gdf raster_path (int B) nodata =
        invoke_all zonal_stats ?cs ([], [])"
    using assms by (rule run_as_batches)
  show "run_chunked_zonal_stats zonal_stats gdf raster_path (int B) nodata =
          (Inr (concat (map (\<lambda>c. projr (zonal_stats c)) ?cs)), ?cs)"
    if "\<forall>c \<in> set ?cs. \<exists>r. zonal_stats c = Inr r"
    using invoke_all_success [of ?cs zonal_stats "[]" "[]"] that run by simp
  show "concat (map (batch_of gdf) (batch_bounds (length gdf) B)) = gdf"
    using assms by (rule batches_cover)
  show "\<forall>(s, e) \<in> set (batch_bounds (length gdf) B). s < e \<and> e - s \<le> B \<and> e \<le> length gdf"
    using batch_bounds_inside [OF assms] by blast
  show "run_chunked_zonal_stats_default zonal_stats gdf raster_path =
          run_chunked_zonal_stats zonal_stats gdf raster_path 10000 65535"
    by (simp add: run_chunked_zonal_stats_default_def default_chunk_size_def default_nodata_def)
qed

theorem batches_in_order_witness:
  "run_chunked_zonal_stats demo_lib [3, 0, 5] () 2 65535 =
     (Inr [Some 9, None, Some 25],
      [\<lparr>arg_vectors = [3, 0], arg_raster = (), arg_stats = [''mean'', ''min'', ''count'', ''nodata''],
        arg_nodata = 65535, arg_geojson_out = False\<rparr>,
       \<lparr>arg_vectors = [5], arg_raster = (), arg_stats = [''mean'', ''min'', ''count'', ''nodata''],
        arg_nodata = 65535, arg_geojson_out = False\<rparr>])"
  using batches_in_order [where B = 2 and gdf = "[3, 0, 5]" and zonal_stats = demo_lib
      and raster_path = "()" and nodata = 65535]
  by (simp add: batch_bounds_def batch_call_def batch_of_def demo_lib_def stats_requested_def)

text \<open>
  Claim C10. On an empty sequence of buffers the aggregator returns the empty list and
  calls the zonal statistics not once, whatever non-zero chunk size it is given (the
  default 10000 among them).
\<close>

theorem empty_input_no_call:
  "chunk_size \<noteq> 0 \<Longrightarrow>
   run_chunked_zonal_stats zonal_stats [] raster_path chunk_size nodata = (Inr [], [])"
  by (simp add: run_chunked_zonal_stats_def py_range_def range_up_empty range_down_nonneg)

theorem empty_input_no_call_witness:
  "default_chunk_size \<noteq> 0 \<and>
   run_chunked_zonal_stats (\<lambda>c. Inl LibraryError :: error + nat list) ([] :: nat list) ()
     default_chunk_size default_nodata = (Inr [], [])"
  using empty_input_no_call [of default_chunk_size "\<lambda>c. Inl LibraryError :: error + nat list" "()" default_nodata]
  by (simp add: default_chunk_size_def)

section \<open>Properties of the derived columns\<close>

lemma and_then_Inr: "and_then r f = Inr v \<longleftrightarrow> (\<exists>u. r = Inr u \<and> f u = Inr v)"
  by (cases r) (simp_all add: and_then_def)

lemma exposed_flag_None: "exposed_flag None = Inr 0"
  by (simp add: exposed_flag_def)

lemma exposed_flag_record:
  assumes "map_of d ''min'' = Some mn" and "map_of d ''count'' = Some (Some c)"
    and "dict_get d ''nodata'' (Some 0) = Some n"
  shows "exposed_flag (Some d) = Inr (if mn \<noteq> Some 65535 \<and> n < c then 1 else 0)"
proof -
  have "d \<noteq> []" using assms(1) by auto
  then show ?thesis
    using assms by (simp add: exposed_flag_def truth_def getitem_def py_gt_def and_then_def)
qed

text \<open>
  Claim C2. A null record is classified 0. A record with a minimum, a count and a
  nodata count (the latter read as 0 when the key is missing) is classified 1 exactly
  when its minimum is not the sentinel 65535 and its count exceeds its nodata count,
  and 0 in every other case.
\<close>

theorem exposure_rule:
  "exposed_flag None = Inr 0 \<and>
   (map_of d ''min'' = Some mn \<and> map_of d ''count'' = Some (Some c) \<and>
    dict_get d ''nodata'' (Some 0) = Some n \<longrightarrow>
      (exposed_flag (Some d) = Inr 1 \<longleftrightarrow> mn \<noteq> Some 65535 \<and> n < c) \<and>
      (exposed_flag (Some d) = Inr 0 \<longleftrightarrow> \<not> (mn \<noteq> Some 65535 \<and> n < c)))"
  by (simp add: exposed_flag_None exposed_flag_record)

theorem exposure_rule_witness:
  "exposed_flag (Some [(''mean'', Some (3/2)), (''min'', Some 1), (''count'', Some 100), (''nodata'', Some 0)]) = Inr 1 \<and>
   exposed_flag (Some [(''mean'', None), (''min'', Some 65535), (''count'', Some 0), (''nodata'', Some 100)]) = Inr 0"
  using exposure_rule [where d = "[(''mean'', Some (3/2)), (''min'', Some 1), (''count'', Some 100), (''nodata'', Some 0)]"
      and mn = "Some 1" and c = 100 and n = 0]
    exposure_rule [where d = "[(''mean'', None), (''min'', Some 65535), (''count'', Some 0), (''nodata'', Some 100)]"
      and mn = "Some 65535" and c = 0 and n = 100]
  by (simp add: dict_get_def)

text \<open>
  Claim C9. A non-null record without the key \<open>nodata\<close> has its nodata count read as 0:
  with a minimum other than 65535 and a count above 0 it is classified as exposed.
\<close>

theorem missing_nodata_key:
  assumes "map_of d ''nodata'' = None" and "map_of d ''min'' = Some mn" and "mn \<noteq> Some 65535"
    and "map_of d ''count'' = Some (Some c)" and "0 < c"
  shows "dict_get d ''nodata'' (Some 0) = Some 0 \<and> exposed_flag (Some d) = Inr 1"
proof -
  have n: "dict_get d ''nodata'' (Some 0) = Some 0"
    using assms(1) by (simp add: dict_get_def)
  show ?thesis using exposed_flag_record [OF assms(2) assms(4) n] assms(3,5) n by simp
qed

theorem missing_nodata_key_witness:
  "exposed_flag (Some [(''mean'', Some 2), (''min'', Some 1), (''count'', Some 7)]) = Inr 1"
  using missing_nodata_key [where d = "[(''mean'', Some 2), (''min'', Some 1), (''count'', Some 7)]"
      and mn = "Some 1" and c = 7]
  by simp

lemma series_min_observed:
  "series_min (map of_mean means) =
     (if observed means = [] then NaN else Fin (Min (set (observed means))))"
proof (induction means rule: observed.induct)
  case 1
  show ?case by simp
next
  case (2 vs)
  then show ?case by (simp add: of_mean_def)
next
  case (3 x vs)
  show ?case
  proof (cases "observed vs = []")
    case True
    then show ?thesis using 3 by (simp add: of_mean_def)
  next
    case False
    define M where "M = Min (set (observed vs))"
    have ih: "series_min (map of_mean vs) = Fin M"
      using 3 False by (simp add: M_def)
    have "series_min (map of_mean (Some x # vs)) = (if float_le (Fin x) (Fin M) then Fin x else Fin M)"
      using ih by (simp add: of_mean_def)
    moreover have "Min (set (observed (Some x # vs))) = min x M"
      using False by (simp add: M_def)
    ultimately show ?thesis by (auto simp: min_def)
  qed
qed

lemma series_max_observed:
  "series_max (map of_mean means) =
     (if observed means = [] then NaN else Fin (Max (set (observed means))))"
proof (induction means rule: observed.induct)
  case 1
  show ?case by simp
next
  case (2 vs)
  then show ?case by (simp add: of_mean_def)
next
  case (3 x vs)
  show ?case
  proof (cases "observed vs = []")
    case True
    then show ?thesis using 3 by (simp add: of_mean_def)
  next
    case False
    define M where "M = Max (set (observed vs))"
    have ih: "series_max (map of_mean vs) = Fin M"
      using 3 False by (simp add: M_def)
    have "series_max (map of_mean (Some x # vs)) = (if float_le (Fin M) (Fin x) then Fin x else Fin M)"
      using ih by (simp add: of_mean_def)
    moreover have "Max (set (observed (Some x # vs))) = max x M"
      using False by (simp add: M_def)
    ultimately show ?thesis by (auto simp: max_def)
  qed
qed

lemma observed_member: "Some m \<in> set means \<longleftrightarrow> m \<in> set (observed means)"
  by (induction means rule: observed.induct) auto

lemma observed_nth:
  assumes "i < length means" "means ! i = Some m"
  shows "m \<in> set (observed means)"
  using assms observed_member [of m means] nth_mem [of i means] by simp

lemma burn_norm_nth:
  assumes "i < length means"
  shows "burn_norm (map of_mean means) ! i =
     (case means ! i of
        None \<Rightarrow> NaN
      | Some m \<Rightarrow> float_div (Fin (m - Min (set (observed means))))
                   (Fin (Max (set (observed means)) - Min (set (observed means)))))"
proof (cases "means ! i")
  case None
  then show ?thesis using assms by (simp add: burn_norm_def of_mean_def)
next
  case (Some m)
  then have "observed means \<noteq> []" using observed_nth [OF assms] by auto
  then show ?thesis
    using assms Some by (simp add: burn_norm_def series_min_observed series_max_observed of_mean_def)
qed


text \<open>
  Claim C4. A feature with mean \<open>m\<close> gets the floating-point quotient of \<open>m - lo\<close> by
  \<open>hi - lo\<close>, where \<open>lo\<close> and \<open>hi\<close> are the least and the greatest of the non-null
  means of the feature set; a feature with a null mean gets a null (NaN) norm.
\<close>

theorem normalised_formula:
  assumes "i < length means"
  shows "burn_norm (map of_mean means) ! i =
     (case means ! i of
        None \<Rightarrow> NaN
      | Some m \<Rightarrow> float_div (Fin (m - Min (set (observed means))))
                   (Fin (Max (set (observed means)) - Min (set (observed means)))))"
  using assms by (rule burn_norm_nth)

theorem normalised_formula_witness:
  "burn_norm (map of_mean [Some (3/2), None, Some 4, Some 2]) ! 3 = Fin (1/5) \<and>
   burn_norm (map of_mean [Some (3/2), None, Some 4, Some 2]) ! 1 = NaN"
  using normalised_formula [where means = "[Some (3/2), None, Some 4, Some 2]" and i = 3]
    normalised_formula [where means = "[Some (3/2), None, Some 4, Some 2]" and i = 1]
  by simp

text \<open>
  Claim C5, as stated, at the scenario of the design (one mean, two nulls): the feature
  that attains the minimum and the maximum gets \<open>0 / 0\<close>, which is NaN, neither 0 nor 1.
\<close>

theorem single_mean_counterexample:
  "series_min (map of_mean [Some (3/2), None, None]) = Fin (3/2) \<and>
   series_max (map of_mean [Some (3/2), None, None]) = Fin (3/2) \<and>
   burn_norm (map of_mean [Some (3/2), None, None]) = [NaN, NaN, NaN]"
  by (simp add: burn_norm_def of_mean_def)

lemma burn_norm_all_null:
  assumes "\<forall>v \<in> set means. v = None"
  shows "burn_norm (map of_mean means) = replicate (length means) NaN"
proof -
  have "map (\<lambda>v. NaN) means = replicate (length means) NaN"
    by (induction means) simp_all
  moreover have "burn_norm (map of_mean means) = map (\<lambda>v. NaN) means"
    using assms by (auto simp: burn_norm_def of_mean_def)
  ultimately show ?thesis by simp
qed

text \<open>
  Claim C5, amended. When the non-null means are not all equal, a feature with the
  least mean gets the norm 0 and a feature with the greatest mean gets the norm 1;
  when every mean is null, every norm is null (NaN), and nothing is raised: the
  normaliser is a total function.
\<close>

theorem normalised_endpoints:
  "(i < length means \<and> means ! i = Some m \<and>
      Min (set (observed means)) < Max (set (observed means)) \<longrightarrow>
        (m = Min (set (observed means)) \<longrightarrow> burn_norm (map of_mean means) ! i = Fin 0) \<and>
        (m = Max (set (observed means)) \<longrightarrow> burn_norm (map of_mean means) ! i = Fin 1)) \<and>
   ((\<forall>v \<in> set means. v = None) \<longrightarrow>
        burn_norm (map of_mean means) = replicate (length means) NaN)"
  using burn_norm_nth [of i means] burn_norm_all_null [of means] by auto

theorem normalised_endpoints_witness:
  "burn_norm (map of_mean [Some (3/2), None, Some 4, Some 2]) ! 0 = Fin 0 \<and>
   burn_norm (map of_mean [Some (3/2), None, Some 4, Some 2]) ! 2 = Fin 1 \<and>
   burn_norm (map of_mean [None, None]) = [NaN, NaN]"
  using normalised_endpoints [where means = "[Some (3/2), None, Some 4, Some 2]" and i = 0 and m = "3/2"]
    normalised_endpoints [where means = "[Some (3/2), None, Some 4, Some 2]" and i = 2 and m = 4]
    normalised_endpoints [where means = "[None, None]"]
  by simp

lemma burn_norm_range:
  assumes "i < length means"
  shows "burn_norm (map of_mean means) ! i = NaN \<or>
         (\<exists>r. burn_norm (map of_mean means) ! i = Fin r \<and> 0 \<le> r \<and> r \<le> 1)"
proof (cases "means ! i")
  case None
  then show ?thesis using burn_norm_nth [OF assms] by simp
next
  case (Some m)
  let ?S = "set (observed means)"
  have m: "m \<in> ?S" using assms Some by (rule observed_nth)
  then have lo: "Min ?S \<le> m" and hi: "m \<le> Max ?S" by simp_all
  show ?thesis
  proof (cases "Max ?S = Min ?S")
    case True
    then have "m = Min ?S" using lo hi by simp
    then show ?thesis using burn_norm_nth [OF assms] Some True by simp
  next
    case False
    then have d: "0 < Max ?S - Min ?S" using lo hi by simp
    have "0 \<le> (m - Min ?S) / (Max ?S - Min ?S)" using lo d by simp
    moreover have "(m - Min ?S) / (Max ?S - Min ?S) \<le> 1" using hi d by simp
    ultimately show ?thesis using burn_norm_nth [OF assms] Some False by simp
  qed
qed

lemma comprehension_Inr:
  "comprehension f xs = Inr ys \<Longrightarrow>
   length ys = length xs \<and> (\<forall>i < length xs. f (xs ! i) = Inr (ys ! i))"
proof (induction xs arbitrary: ys)
  case Nil
  then show ?case by simp
next
  case (Cons x xs)
  from Cons.prems obtain y ys' where y: "f x = Inr y" and ys': "comprehension f xs = Inr ys'"
    and ys: "ys = y # ys'"
    by (auto simp: and_then_Inr)
  from Cons.IH [OF ys'] have "length ys' = length xs"
    and "\<forall>i < length xs. f (xs ! i) = Inr (ys' ! i)" by simp_all
  then show ?case using y ys by (auto simp: nth_Cons split: nat.splits)
qed

lemma exposed_flag_range: "exposed_flag s = Inr v \<Longrightarrow> v = 0 \<or> v = 1"
  by (auto simp: exposed_flag_def and_then_Inr split: option.splits if_splits)

lemma mean_of_None: "mean_of None = Inr None"
  by (simp add: mean_of_def)

text \<open>
  Claim C7. When the two comprehensions succeed, the three columns have one entry per
  record; the flag of every feature is the integer 0 or 1, and is 0 (not null) for a
  null record, whose mean is null; every mean is a number or null by its type; every
  norm is null (NaN) or a number between 0 and 1.
\<close>

theorem exported_columns_typed:
  assumes "burn_mean_column burn_stats = Inr means"
    and "burn_exposed_column burn_stats = Inr flags"
    and "i < length burn_stats"
  shows "length means = length burn_stats \<and> length flags = length burn_stats \<and>
         length (burn_norm (map of_mean means)) = length burn_stats \<and>
         (flags ! i = 0 \<or> flags ! i = 1) \<and>
         (burn_stats ! i = None \<longrightarrow> flags ! i = 0 \<and> means ! i = None) \<and>
         (burn_norm (map of_mean means) ! i = NaN \<or>
          (\<exists>r. burn_norm (map of_mean means) ! i = Fin r \<and> 0 \<le> r \<and> r \<le> 1))"
proof -
  from comprehension_Inr [of mean_of burn_stats means] assms(1)
  have lm: "length means = length burn_stats"
    and m: "mean_of (burn_stats ! i) = Inr (means ! i)"
    using assms(3) by (simp_all add: burn_mean_column_def)
  from comprehension_Inr [of exposed_flag burn_stats flags] assms(2)
  have lf: "length flags = length burn_stats"
    and f: "exposed_flag (burn_stats ! i) = Inr (flags ! i)"
    using assms(3) by (simp_all add: burn_exposed_column_def)
  have "flags ! i = 0 \<or> flags ! i = 1" using f by (rule exposed_flag_range)
  moreover have "burn_stats ! i = None \<longrightarrow> flags ! i = 0 \<and> means ! i = None"
    using f m by (auto simp: exposed_flag_None mean_of_None)
  moreover have "burn_norm (map of_mean means) ! i = NaN \<or>
      (\<exists>r. burn_norm (map of_mean means) ! i = Fin r \<and> 0 \<le> r \<and> r \<le> 1)"
    using assms(3) lm by (intro burn_norm_range) simp
  ultimately show ?thesis using lm lf by (simp add: burn_norm_def)
qed

theorem exported_columns_typed_witness:
  "burn_mean_column scenario = Inr [Some (3/2), None, None] \<and>
   burn_exposed_column scenario = Inr [1, 0, 0] \<and>
   scenario ! 2 = None \<and>
   ([1, 0, 0 :: int] ! 2 = 0 \<or> [1, 0, 0 :: int] ! 2 = 1) \<and>
   (burn_norm (map of_mean [Some (3/2), None, None]) ! 2 = NaN \<or>
    (\<exists>r. burn_norm (map of_mean [Some (3/2), None, None]) ! 2 = Fin r \<and> 0 \<le> r \<and> r \<le> 1))"
proof -
  have m: "burn_mean_column scenario = Inr [Some (3/2), None, None]"
    by (simp add: burn_mean_column_def scenario_def record_A_def record_B_def mean_of_def
          truth_def getitem_def and_then_def)
  have f: "burn_exposed_column scenario = Inr [1, 0, 0]"
    by (simp add: burn_exposed_column_def scenario_def record_A_def record_B_def exposed_flag_def
          truth_def getitem_def dict_get_def py_gt_def and_then_def)
  have i: "2 < length scenario" by (simp add: scenario_def)
  show ?thesis using exported_columns_typed [OF m f i] m f by (simp add: scenario_def)
qed

section \<open>Properties of the export\<close>

lemma and_then_simps: "and_then (Inr u) f = f u" "and_then (Inl e) f = Inl e"
  by (simp_all add: and_then_def)

lemma setcol_append:
  "name \<notin> fst ` set df \<Longrightarrow> setcol (df @ xs) name col = df @ setcol xs name col"
  by (induction df) auto

lemma getcol_append:
  assumes "name \<notin> fst ` set df"
  shows "getcol (df @ xs) name = getcol xs name"
proof -
  have "map_of df name = None" using assms by (simp add: map_of_eq_None_iff)
  then show ?thesis by (simp add: getcol_def map_add_def)
qed

lemma getcol_Cons:
  "getcol ((n, c) # df) name = (if n = name then Inr c else getcol df name)"
  by (simp add: getcol_def)

lemma dropcol_append:
  assumes "name \<notin> fst ` set df" and "name \<in> fst ` set xs"
  shows "dropcol (df @ xs) name = Inr (df @ filter (\<lambda>p. fst p \<noteq> name) xs)"
proof -
  have "filter (\<lambda>p. fst p \<noteq> name) df = df"
    using assms(1) by (induction df) auto
  then show ?thesis using assms(2) by (simp add: dropcol_def)
qed

lemma as_float_means:
  "comprehension as_float (map (\<lambda>v. Num (of_mean v)) means) = Inr (map of_mean means)"
  by (induction means) (simp_all add: as_float_def and_then_simps)

lemma export_frame_fresh:
  assumes "''buffer_500m'' \<notin> fst ` set pipe" "''burn_mean'' \<notin> fst ` set pipe"
    "''burn_exposed'' \<notin> fst ` set pipe" "''burn_norm'' \<notin> fst ` set pipe"
  shows "export_frame (pipe @ [(''buffer_500m'', bufs)])
           [(''buffer_500m'', bufs), (''burn_mean'', map (\<lambda>v. Num (of_mean v)) means),
            (''burn_exposed'', map IntCell flags)] =
         Inr (pipe @ [(''burn_mean'', map (\<lambda>v. Num (of_mean v)) means),
                      (''burn_exposed'', map IntCell flags),
                      (''burn_norm'', map Num (burn_norm (map of_mean means)))])"
  using assms
  by (simp add: export_frame_def setcol_append getcol_append dropcol_append
        as_float_means and_then_simps Let_def getcol_Cons)

lemma script_fresh:
  assumes ok: "script buffer_500 zonal_stats fire_file pipe = Inr out"
    and fresh: "''buffer_500m'' \<notin> fst ` set pipe" "''burn_mean'' \<notin> fst ` set pipe"
      "''burn_exposed'' \<notin> fst ` set pipe" "''burn_norm'' \<notin> fst ` set pipe"
  shows "\<exists>burn_stats means flags.
           burn_mean_column burn_stats = Inr means \<and>
           burn_exposed_column burn_stats = Inr flags \<and>
           out = pipe @ [(''burn_mean'', map (\<lambda>v. Num (of_mean v)) means),
                         (''burn_exposed'', map IntCell flags),
                         (''burn_norm'', map Num (burn_norm (map of_mean means)))]"
proof -
  from ok obtain p b where pb: "buffer_and_aggregate buffer_500 zonal_stats fire_file pipe = Inr (p, b)"
    and ex: "export_frame p b = Inr out"
    by (auto simp: script_def and_then_Inr)
  from pb obtain geometry burn_stats means flags where
    p: "p = setcol pipe ''buffer_500m'' (map buffer_500 geometry)"
    and b: "b = [(''buffer_500m'', map buffer_500 geometry),
                 (''burn_mean'', map (\<lambda>v. Num (of_mean v)) means),
                 (''burn_exposed'', map IntCell flags)]"
    and m: "burn_mean_column burn_stats = Inr means"
    and f: "burn_exposed_column burn_stats = Inr flags"
    by (auto simp: buffer_and_aggregate_def and_then_Inr Let_def setcol_list_def split: if_splits)
  have "p = pipe @ [(''buffer_500m'', map buffer_500 geometry)]"
    using setcol_append [OF fresh(1), of "[]"] p by simp
  then have "out = pipe @ [(''burn_mean'', map (\<lambda>v. Num (of_mean v)) means),
                         (''burn_exposed'', map IntCell flags),
                         (''burn_norm'', map Num (burn_norm (map of_mean means)))]"
    using ex b export_frame_fresh [OF fresh] by auto
  then show ?thesis using m f by blast
qed

lemma burnt_lib_per_polygon: "per_polygon burnt_lib () nd (\<lambda>g. Some record_A)"
  by (simp add: per_polygon_def burnt_lib_def)

lemma burnt_lib_run:
  "fst (run_chunked_zonal_stats_default burnt_lib bufs ()) = Inr (map (\<lambda>g. Some record_A) bufs)"
  unfolding run_chunked_zonal_stats_default_def
  by (rule run_per_polygon_int [OF burnt_lib_per_polygon]) (simp add: default_chunk_size_def)

lemma record_A_columns:
  "mean_of (Some record_A) = Inr (Some (3/2))" "exposed_flag (Some record_A) = Inr 1"
  by (simp_all add: record_A_def mean_of_def exposed_flag_def truth_def getitem_def
        dict_get_def py_gt_def and_then_def)

text \<open>
  Claim C8, as stated, at a pipeline layer that already has an attribute \<open>burn_mean\<close>:
  the attribute is overwritten by the derived column, and two columns are appended.
\<close>

theorem attribute_overwritten_counterexample:
  "script id burnt_lib () [(''geometry'', [Attr 1]), (''burn_mean'', [Attr 7])] =
     Inr [(''geometry'', [Attr 1]), (''burn_mean'', [Num (Fin (3/2))]),
          (''burn_exposed'', [IntCell 1]), (''burn_norm'', [Num NaN])]"
  by (simp add: script_def buffer_and_aggregate_def export_frame_def burnt_lib_run
        burn_mean_column_def burn_exposed_column_def record_A_columns setcol_list_def
        nrows_def getcol_Cons dropcol_def as_float_def burn_norm_def of_mean_def
        and_then_simps Let_def)

text \<open>
  Claim C8, amended. For a pipeline layer with no column named \<open>buffer_500m\<close>,
  \<open>burn_mean\<close>, \<open>burn_exposed\<close> or \<open>burn_norm\<close>, the frame handed to the writer is the
  layer as it was (every attribute and the geometry, in their order) followed by
  exactly the three derived columns; the buffer column is gone.
\<close>

theorem export_appends_three:
  assumes "script buffer_500 zonal_stats fire_file pipe = Inr out"
    and "''buffer_500m'' \<notin> fst ` set pipe" and "''burn_mean'' \<notin> fst ` set pipe"
    and "''burn_exposed'' \<notin> fst ` set pipe" and "''burn_norm'' \<notin> fst ` set pipe"
  shows "\<exists>burn_stats means flags.
           burn_mean_column burn_stats = Inr means \<and>
           burn_exposed_column burn_stats = Inr flags \<and>
           out = pipe @ [(''burn_mean'', map (\<lambda>v. Num (of_mean v)) means),
                         (''burn_exposed'', map IntCell flags),
                         (''burn_norm'', map Num (burn_norm (map of_mean means)))]"
  using assms by (rule script_fresh)

theorem export_appends_three_witness:
  "script id burnt_lib () [(''geometry'', [Attr 1]), (''LICENCE'', [Attr 7])] =
     Inr [(''geometry'', [Attr 1]), (''LICENCE'', [Attr 7]), (''burn_mean'', [Num (Fin (3/2))]),
          (''burn_exposed'', [IntCell 1]), (''burn_norm'', [Num NaN])] \<and>
   (\<exists>burn_stats means flags.
      burn_mean_column burn_stats = Inr means \<and>
      burn_exposed_column burn_stats = Inr flags \<and>
      [(''geometry'', [Attr 1]), (''LICENCE'', [Attr 7]), (''burn_mean'', [Num (Fin (3/2))]),
       (''burn_exposed'', [IntCell 1]), (''burn_norm'', [Num NaN])] =
      [(''geometry'', [Attr 1]), (''LICENCE'', [Attr (7::nat)])] @
        [(''burn_mean'', map (\<lambda>v. Num (of_mean v)) means),
         (''burn_exposed'', map IntCell flags),
         (''burn_norm'', map Num (burn_norm (map of_mean means)))])"
proof -
  have ev: "script id burnt_lib () [(''geometry'', [Attr 1]), (''LICENCE'', [Attr 7])] =
     Inr [(''geometry'', [Attr 1]), (''LICENCE'', [Attr 7]), (''burn_mean'', [Num (Fin (3/2))]),
          (''burn_exposed'', [IntCell 1]), (''burn_norm'', [Num NaN])]"
    by (simp add: script_def buffer_and_aggregate_def export_frame_def burnt_lib_run
          burn_mean_column_def burn_exposed_column_def record_A_columns setcol_list_def
          nrows_def getcol_Cons dropcol_def as_float_def burn_norm_def of_mean_def
          and_then_simps Let_def)
  show ?thesis using export_appends_three [OF ev] ev by simp
qed

end
